theory Spec2Isabelle
  imports Complex_Main "HOL-Library.Multiset" "HOL-Library.Product_Lexorder"
begin

section \<open>Miller-index canonicalisation (miller.py)\<close>

text \<open>
  A plane is a row of the integer array \<open>equivalent_planes\<close>. The symmetry images of one
  plane are produced by the external point-group service; the selection of the canonical
  representative and the final sort only read the resulting integer rows, so the model takes
  the rows of every equivalence class (the values of \<open>planes_dict\<close> after
  \<open>list(set(...))\<close>) as its input, in the iteration order of the set.
\<close>

type_synonym plane = "int \<times> int \<times> int"

definition h_of :: "plane \<Rightarrow> int" where
  "h_of p = fst p"

definition k_of :: "plane \<Rightarrow> int" where
  "k_of p = fst (snd p)"

definition l_of :: "plane \<Rightarrow> int" where
  "l_of p = snd (snd p)"

text \<open>\<open>np.sign(x).sum()\<close> of one row.\<close>

definition sign_sum :: "plane \<Rightarrow> int" where
  "sign_sum p = sgn (h_of p) + sgn (k_of p) + sgn (l_of p)"

text \<open>\<open>diff = np.abs(np.sum(np.sign(equivalent_planes), axis=1))\<close>, one row.\<close>

definition diff :: "plane \<Rightarrow> int" where
  "diff p = \<bar>sign_sum p\<bar>"

definition abs_first :: "plane \<Rightarrow> int" where
  "abs_first p = \<bar>h_of p\<bar>"

definition abs_second :: "plane \<Rightarrow> int" where
  "abs_second p = \<bar>k_of p\<bar>"

text \<open>\<open>np.max\<close> and \<open>np.min\<close> of a non-empty vector (the callers guard the empty case).\<close>

fun np_max :: "'a::linorder list \<Rightarrow> 'a" where
  "np_max (x # xs) = fold max xs x"

fun np_min :: "'a::linorder list \<Rightarrow> 'a" where
  "np_min (x # xs) = fold min xs x"

text \<open>\<open>np.argmax\<close>: the first index that holds the maximum.\<close>

fun first_index :: "('a \<Rightarrow> bool) \<Rightarrow> 'a list \<Rightarrow> nat" where
  "first_index P [] = 0"
| "first_index P (x # xs) = (if P x then 0 else Suc (first_index P xs))"

definition np_argmax :: "'a::linorder list \<Rightarrow> nat" where
  "np_argmax vs = first_index (\<lambda>v. v = np_max vs) vs"

text \<open>\<open>np.argmin\<close>: the first index that holds the minimum.\<close>

definition np_argmin :: "'a::linorder list \<Rightarrow> nat" where
  "np_argmin vs = first_index (\<lambda>v. v = np_min vs) vs"

text \<open>The boolean-mask selection \<open>rows[f(rows) == np.max(f(rows))]\<close>.\<close>

definition rows_at_max :: "(plane \<Rightarrow> int) \<Rightarrow> plane list \<Rightarrow> plane list" where
  "rows_at_max f rows = filter (\<lambda>p. f p = np_max (map f rows)) rows"

text \<open>
  The body of the loop \<open>for k in planes_dict\<close>: the representative appended to
  \<open>unique_planes\<close> for one class. An empty class makes \<open>np.sum(..., axis=1)\<close> raise,
  which is the value \<open>None\<close>.
\<close>

definition canonical_plane :: "plane list \<Rightarrow> plane option" where
  "canonical_plane equivalent_planes =
     (if equivalent_planes = [] then None
      else
        let like_signs = rows_at_max diff equivalent_planes in
        if length like_signs = 1 then Some (like_signs ! 0)
        else
          let first_max = rows_at_max abs_first like_signs in
          if length first_max = 1 then Some (first_max ! 0)
          else
            let second_max = rows_at_max abs_second first_max in
            if length second_max = 1 then Some (second_max ! 0)
            else Some (second_max ! np_argmax (map sign_sum second_max)))"

text \<open>The spec's first rule counts the components whose sign is not negative.\<close>

definition nonneg_count :: "plane \<Rightarrow> nat" where
  "nonneg_count p = length (filter (\<lambda>c. 0 \<le> c) [h_of p, k_of p, l_of p])"

definition negate_plane :: "plane \<Rightarrow> plane" where
  "negate_plane p = (- h_of p, - k_of p, - l_of p)"

text \<open>
  The sort key \<open>(np.linalg.norm(x), -np.sign(x).sum())\<close>. Python compares the key tuples
  lexicographically and \<open>sorted\<close> is stable, as \<open>sort_key\<close> is.
\<close>

definition norm_sq :: "plane \<Rightarrow> int" where
  "norm_sq p = h_of p * h_of p + k_of p * k_of p + l_of p * l_of p"

definition linalg_norm :: "plane \<Rightarrow> real" where
  "linalg_norm p = sqrt (of_int (norm_sq p))"

definition plane_key :: "plane \<Rightarrow> real \<times> int" where
  "plane_key x = (linalg_norm x, - sign_sum x)"

definition sorted_planes :: "plane list \<Rightarrow> plane list" where
  "sorted_planes unique_planes = sort_key plane_key unique_planes"

text \<open>Collecting one representative per class; any failing class fails the whole call.\<close>

fun collect_planes :: "plane list list \<Rightarrow> plane list option" where
  "collect_planes [] = Some []"
| "collect_planes (c # cs) =
     (case canonical_plane c of
        None \<Rightarrow> None
      | Some r \<Rightarrow> (case collect_planes cs of None \<Rightarrow> None | Some rs \<Rightarrow> Some (r # rs)))"

text \<open>
  Lines 184 to 218 of \<open>_get_unique_miller_indices\<close>: \<open>np.vstack\<close> of an empty list of
  representatives raises.
\<close>

definition get_unique_miller_indices :: "plane list list \<Rightarrow> plane list option" where
  "get_unique_miller_indices classes =
     (case collect_planes classes of
        None \<Rightarrow> None
      | Some unique_planes \<Rightarrow>
          if unique_planes = [] then None else Some (sorted_planes unique_planes))"


text \<open>The rows that survive the three mask selections, before the last \<open>argmax\<close>.\<close>

definition final_rows :: "plane list \<Rightarrow> plane list" where
  "final_rows ps = rows_at_max abs_second (rows_at_max abs_first (rows_at_max diff ps))"

section \<open>Structures, sites and the interface object (surfaces.py)\<close>

text \<open>
  Coordinates are idealised as real numbers. A lattice is its 3 by 3 matrix of row vectors.
\<close>

type_synonym vec3 = "real \<times> real \<times> real"

type_synonym matrix3 = "vec3 \<times> vec3 \<times> vec3"

definition x_of :: "vec3 \<Rightarrow> real" where
  "x_of v = fst v"

definition y_of :: "vec3 \<Rightarrow> real" where
  "y_of v = fst (snd v)"

definition z_of :: "vec3 \<Rightarrow> real" where
  "z_of v = snd (snd v)"

definition vec_add :: "vec3 \<Rightarrow> vec3 \<Rightarrow> vec3" where
  "vec_add u v = (x_of u + x_of v, y_of u + y_of v, z_of u + z_of v)"

definition row0 :: "matrix3 \<Rightarrow> vec3" where
  "row0 m = fst m"

definition row1 :: "matrix3 \<Rightarrow> vec3" where
  "row1 m = fst (snd m)"

definition row2 :: "matrix3 \<Rightarrow> vec3" where
  "row2 m = snd (snd m)"

text \<open>\<open>v.dot(m)\<close> for a row vector \<open>v\<close>.\<close>

definition vec_dot_matrix :: "vec3 \<Rightarrow> matrix3 \<Rightarrow> vec3" where
  "vec_dot_matrix v m =
     (x_of v * x_of (row0 m) + y_of v * x_of (row1 m) + z_of v * x_of (row2 m),
      x_of v * y_of (row0 m) + y_of v * y_of (row1 m) + z_of v * y_of (row2 m),
      x_of v * z_of (row0 m) + y_of v * z_of (row1 m) + z_of v * z_of (row2 m))"

definition det3 :: "matrix3 \<Rightarrow> real" where
  "det3 m =
     x_of (row0 m) * (y_of (row1 m) * z_of (row2 m) - z_of (row1 m) * y_of (row2 m))
   - y_of (row0 m) * (x_of (row1 m) * z_of (row2 m) - z_of (row1 m) * x_of (row2 m))
   + z_of (row0 m) * (x_of (row1 m) * y_of (row2 m) - y_of (row1 m) * x_of (row2 m))"

datatype error = ValueError | LinAlgError | IndexError | FloatingPointError

text \<open>
  \<open>Lattice.inv_matrix\<close> is \<open>np.linalg.inv(matrix)\<close>, which raises on a singular matrix;
  otherwise the inverse is the adjugate over the determinant.
\<close>

definition inv_matrix :: "matrix3 \<Rightarrow> error + matrix3" where
  "inv_matrix m =
     (let a = x_of (row0 m); b = y_of (row0 m); c = z_of (row0 m);
          d = x_of (row1 m); e = y_of (row1 m); f = z_of (row1 m);
          g = x_of (row2 m); h = y_of (row2 m); i = z_of (row2 m);
          dt = det3 m
      in if dt = 0 then Inl LinAlgError
         else Inr (((e * i - f * h) / dt, (c * h - b * i) / dt, (b * f - c * e) / dt),
                   ((f * g - d * i) / dt, (a * i - c * g) / dt, (c * d - a * f) / dt),
                   ((d * h - e * g) / dt, (b * g - a * h) / dt, (a * e - b * d) / dt)))"

text \<open>\<open>Lattice.get_fractional_coords(cart)\<close> is \<open>dot(cart, inv_matrix)\<close>.\<close>

definition get_fractional_coords :: "matrix3 \<Rightarrow> vec3 \<Rightarrow> error + vec3" where
  "get_fractional_coords m cart =
     (case inv_matrix m of Inl e \<Rightarrow> Inl e | Inr im \<Rightarrow> Inr (vec_dot_matrix cart im))"

text \<open>\<open>np.mod(fcoords, 1)\<close>, the wrap into the unit cell.\<close>

definition to_unit_cell :: "vec3 \<Rightarrow> vec3" where
  "to_unit_cell v = (frac (x_of v), frac (y_of v), frac (z_of v))"

text \<open>
  A \<open>PeriodicSite\<close> is a mutable object. Several \<open>Structure\<close> objects can hold the same
  site objects, so sites live in a store indexed by address and a structure holds the
  addresses of its sites, in order.
\<close>

record periodic_site =
  species :: string
  frac_coords :: vec3

type_synonym site_store = "periodic_site list"

record struc =
  lattice :: matrix3
  sites :: "nat list"

text \<open>The property \<open>structure.frac_coords\<close>: the coordinates of the sites, in order.\<close>

definition struct_frac_coords :: "site_store \<Rightarrow> struc \<Rightarrow> vec3 list" where
  "struct_frac_coords sto s = map (\<lambda>a. frac_coords (sto ! a)) (sites s)"

text \<open>
  \<open>Structure.translate_sites(indices, vector)\<close> with its defaults \<open>frac_coords=True\<close> and
  \<open>to_unit_cell=True\<close>: for each index in turn the site object at that position gets its
  fractional coordinates replaced by the wrapped sum. The site object is updated in place.
\<close>

definition translate_site :: "struc \<Rightarrow> vec3 \<Rightarrow> nat \<Rightarrow> site_store \<Rightarrow> site_store" where
  "translate_site s vector i sto =
     (let a = sites s ! i
      in sto[a := (sto ! a)\<lparr>frac_coords := to_unit_cell (vec_add (frac_coords (sto ! a)) vector)\<rparr>])"

definition translate_sites :: "struc \<Rightarrow> nat list \<Rightarrow> vec3 \<Rightarrow> site_store \<Rightarrow> site_store" where
  "translate_sites s indices vector sto = fold (translate_site s vector) indices sto"

text \<open>
  \<open>copy.copy(structure)\<close>: \<open>Structure\<close> defines no \<open>__copy__\<close>, so the copy is a new object
  whose attributes refer to the objects of the original: the same lattice and the same
  site objects.
\<close>

definition copy_copy :: "struc \<Rightarrow> struc" where
  "copy_copy s = s"

text \<open>The \<open>Interface\<close> object after construction, with the store its structures live in.\<close>

record interface_state =
  store :: site_store
  interface :: struc
  sub_part :: struc
  film_part :: struc
  interface_height :: real
  interfacial_distance :: real

text \<open>
  \<open>np.where((frac_coords[:,-1] > interface_height) & (frac_coords[:,-1] < 0.99))[0]\<close>
\<close>

definition film_ind :: "interface_state \<Rightarrow> nat list" where
  "film_ind st =
     filter (\<lambda>i. interface_height st < z_of (struct_frac_coords (store st) (interface st) ! i)
                \<and> z_of (struct_frac_coords (store st) (interface st) ! i) < 99 / 100)
            [0 ..< length (sites (interface st))]"

text \<open>
  \<open>Interface.shift_film(shift, fractional, inplace)\<close>. The result pairs what the call
  returns (the raised error, or the returned object, \<open>None\<close> for the in-place branch) with
  the state it leaves behind. In the in-place branch \<open>shift[-1]\<close> is the last component of
  the argument as passed, also when it is fractional. The sums are taken over the reals
  here; \<open>shift_film_float\<close> below rounds them as the doubles of the code do.
\<close>

definition shift_film ::
  "vec3 \<Rightarrow> bool \<Rightarrow> bool \<Rightarrow> interface_state \<Rightarrow> (error + struc option) \<times> interface_state" where
  "shift_film shift fractional inplace st =
     (case (if fractional then Inr shift
            else if z_of shift + interfacial_distance st < 1 / 2 then Inl ValueError
            else get_fractional_coords (lattice (interface st)) shift) of
        Inl e \<Rightarrow> (Inl e, st)
      | Inr frac_shift \<Rightarrow>
          let film_inds = film_ind st in
          if inplace then
            let store1 = translate_sites (interface st) film_inds frac_shift (store st);
                store2 = translate_sites (film_part st)
                           [0 ..< length (sites (film_part st))] frac_shift store1
            in (Inr None,
                st\<lparr>store := store2,
                   interface_height := interface_height st + z_of frac_shift / 2,
                   interfacial_distance := interfacial_distance st + z_of shift\<rparr>)
          else
            let shifted_interface = copy_copy (interface st);
                store1 = translate_sites shifted_interface film_inds frac_shift (store st)
            in (Inr (Some shifted_interface), st\<lparr>store := store1\<rparr>))"

text \<open>
  What the constructor establishes: the three structures hold existing site objects, no
  site object twice, and the two views are deep copies, so they share no site object with
  the interface or with each other.
\<close>

definition wf_state :: "interface_state \<Rightarrow> bool" where
  "wf_state st \<longleftrightarrow>
     distinct (sites (interface st) @ sites (sub_part st) @ sites (film_part st))
     \<and> list_all (\<lambda>a. a < length (store st))
          (sites (interface st) @ sites (sub_part st) @ sites (film_part st))"

text \<open>The mask the film selection applies to one coordinate row.\<close>

definition is_film_coord :: "real \<Rightarrow> vec3 \<Rightarrow> bool" where
  "is_film_coord height c \<longleftrightarrow> height < z_of c \<and> z_of c < 99 / 100"

definition vec_neg :: "vec3 \<Rightarrow> vec3" where
  "vec_neg v = (- x_of v, - y_of v, - z_of v)"

text \<open>
  A small finalized interface used to run the operations: one substrate atom below and one
  film atom above the dividing height, in a 4 by 4 by 20 cell, the two views holding their
  own copies of the atoms.
\<close>

definition example_state :: "real \<Rightarrow> interface_state" where
  "example_state d =
     \<lparr>store = [\<lparr>species = ''Si'', frac_coords = (0, 0, 2 / 5)\<rparr>,
               \<lparr>species = ''Ge'', frac_coords = (0, 0, 1 / 2)\<rparr>,
               \<lparr>species = ''Si'', frac_coords = (0, 0, 2 / 5)\<rparr>,
               \<lparr>species = ''Ge'', frac_coords = (0, 0, 1 / 2)\<rparr>],
      interface = \<lparr>lattice = ((4, 0, 0), (0, 4, 0), (0, 0, 20)), sites = [0, 1]\<rparr>,
      sub_part = \<lparr>lattice = ((4, 0, 0), (0, 4, 0), (0, 0, 20)), sites = [2]\<rparr>,
      film_part = \<lparr>lattice = ((4, 0, 0), (0, 4, 0), (0, 0, 20)), sites = [3]\<rparr>,
      interface_height = 9 / 20,
      interfacial_distance = d\<rparr>"

text \<open>One site after a translation by \<open>v\<close>.\<close>

definition moved :: "vec3 \<Rightarrow> periodic_site \<Rightarrow> periodic_site" where
  "moved v p = p\<lparr>frac_coords := to_unit_cell (vec_add (frac_coords p) v)\<rparr>"

section \<open>Stacking the interface (\<open>Interface._stack_interface\<close>)\<close>

text \<open>
  While the interface is built, structures are created fresh from species and coordinates,
  so a structure is here the value of its lattice and of its sites, in order.
\<close>

record structure_value =
  val_lattice :: matrix3
  val_sites :: "periodic_site list"

definition site_z :: "periodic_site \<Rightarrow> real" where
  "site_z p = z_of (frac_coords p)"

definition set_z :: "(real \<Rightarrow> real) \<Rightarrow> periodic_site \<Rightarrow> periodic_site" where
  "set_z f p = p\<lparr>frac_coords := (x_of (frac_coords p), y_of (frac_coords p), f (site_z p))\<rparr>"

definition wrap_site :: "periodic_site \<Rightarrow> periodic_site" where
  "wrap_site p = p\<lparr>frac_coords := to_unit_cell (frac_coords p)\<rparr>"

definition linalg_norm3 :: "vec3 \<Rightarrow> real" where
  "linalg_norm3 v = sqrt (x_of v * x_of v + y_of v * y_of v + z_of v * z_of v)"

text \<open>\<open>matrix[:,-1]\<close>, the last column of the lattice matrix.\<close>

definition last_column :: "matrix3 \<Rightarrow> vec3" where
  "last_column m = (z_of (row0 m), z_of (row1 m), z_of (row2 m))"

definition scale_vec :: "real \<Rightarrow> vec3 \<Rightarrow> vec3" where
  "scale_vec c v = (c * x_of v, c * y_of v, c * z_of v)"

text \<open>
  The symmetry analysis is an external service: the reduced cell, the conventional standard
  cell of the space-group analyser and the primitive cell are parameters of the model.
\<close>

record symmetry_service =
  get_reduced_structure :: "structure_value \<Rightarrow> structure_value"
  get_conventional_standard_structure :: "structure_value \<Rightarrow> structure_value"
  get_primitive_structure :: "structure_value \<Rightarrow> structure_value"

text \<open>What \<open>_stack_interface\<close> reads from the \<open>Interface\<close> object.\<close>

record stack_input =
  strained_sub :: structure_value
  strained_film :: structure_value
  vacuum :: real
  distance :: real
  center :: bool
  substrate_bulk_species :: "string list"
  film_bulk_species :: "string list"

text \<open>
  Lines 473 to 521: the stacked structure and \<open>interface_height\<close>. \<open>np.min\<close> of an empty
  coordinate column raises. A zero cell length makes numpy divide by zero, which yields
  non-finite coordinates and no usable structure; the model reports it as a failure.
\<close>

definition stack_cells :: "stack_input \<Rightarrow> error + (structure_value \<times> real)" where
  "stack_cells inp =
     (let sub = strained_sub inp; film = strained_film inp;
          sub_z = map site_z (val_sites sub);
          film_z = map site_z (val_sites film)
      in if sub_z = [] \<or> film_z = [] then Inl ValueError
         else
           let min_sub_coords = np_min sub_z; max_sub_coords = np_max sub_z;
               min_film_coords = np_min film_z; max_film_coords = np_max film_z;
               sub_c_len = linalg_norm3 (row2 (val_lattice sub));
               film_c_len = linalg_norm3 (row2 (val_lattice film));
               interface_c_len = (max_sub_coords - min_sub_coords) * sub_c_len
                  + (max_film_coords - min_film_coords) * film_c_len
                  + vacuum inp + distance inp;
               col = last_column (val_lattice sub)
           in if interface_c_len = 0 \<or> linalg_norm3 col = 0 then Inl FloatingPointError
              else
                let sub_conv_factor = sub_c_len / interface_c_len;
                    film_conv_factor = film_c_len / interface_c_len;
                    sub1 = map (set_z (\<lambda>z. z * sub_conv_factor)) (val_sites sub);
                    film1 = map (set_z (\<lambda>z. z * film_conv_factor)) (val_sites film);
                    sub_size = np_max (map site_z sub1) - np_min (map site_z sub1);
                    sub_min = np_min (map site_z sub1);
                    film_min = np_min (map site_z film1);
                    sub2 = map (set_z (\<lambda>z. z - sub_min)) sub1;
                    film2 = map (set_z (\<lambda>z. z - film_min)) film1;
                    film3 = map (set_z (\<lambda>z. z + (sub_size + distance inp / interface_c_len))) film2;
                    interface_sites = sub2 @ film3;
                    height = sub_size + (1 / 2 * distance inp) / interface_c_len;
                    interface_lattice =
                      (row0 (val_lattice sub), row1 (val_lattice sub),
                       scale_vec (interface_c_len / linalg_norm3 col) col)
                in Inr (\<lparr>val_lattice = interface_lattice,
                          val_sites = map wrap_site interface_sites\<rparr>, height))"

text \<open>Lines 523 to 527: reduced cell, conventional standard cell, reduced cell, primitive cell.\<close>

definition refine :: "symmetry_service \<Rightarrow> structure_value \<Rightarrow> structure_value" where
  "refine ext interface_struc =
     get_primitive_structure ext
       (get_reduced_structure ext
          (get_conventional_standard_structure ext
             (get_reduced_structure ext interface_struc)))"

text \<open>
  \<open>_get_unique_species\<close> and lines 533 to 538: the species of each bulk that the other bulk
  does not have. Only membership in these arrays is read afterwards.
\<close>

definition exclusive_species :: "string list \<Rightarrow> string list \<Rightarrow> string list" where
  "exclusive_species own other = filter (\<lambda>sp. sp \<notin> set (remdups other)) (remdups own)"

text \<open>\<open>np.mean\<close>; of an empty selection it is \<open>nan\<close>, which is the value \<open>None\<close>.\<close>

definition np_mean :: "real list \<Rightarrow> real option" where
  "np_mean xs = (if xs = [] then None else Some (sum_list xs / real (length xs)))"

text \<open>A comparison with \<open>nan\<close> is false.\<close>

definition nan_less :: "real option \<Rightarrow> real option \<Rightarrow> bool" where
  "nan_less a b = (case (a, b) of (Some x, Some y) \<Rightarrow> x < y | _ \<Rightarrow> False)"

text \<open>
  \<open>_flip_structure\<close>: the half turn about the axis [1, 1, 0] through the cell centre, applied
  to the fractional coordinates, sends (x, y, z) to (y, x, 1 - z).
\<close>

definition flip_site :: "periodic_site \<Rightarrow> periodic_site" where
  "flip_site p =
     p\<lparr>frac_coords := (y_of (frac_coords p), x_of (frac_coords p), 1 - z_of (frac_coords p))\<rparr>"

definition flip_structure :: "structure_value \<Rightarrow> structure_value" where
  "flip_structure s = s\<lparr>val_sites := map flip_site (val_sites s)\<rparr>"

text \<open>\<open>translate_sites\<close> over all sites of a structure value.\<close>

definition translate_all :: "vec3 \<Rightarrow> structure_value \<Rightarrow> structure_value" where
  "translate_all v s = s\<lparr>val_sites := map (moved v) (val_sites s)\<rparr>"

text \<open>\<open>remove_sites(indices)\<close> where the indices are those of the sites that satisfy \<open>P\<close>.\<close>

definition remove_sites_where :: "(periodic_site \<Rightarrow> bool) \<Rightarrow> structure_value \<Rightarrow> structure_value" where
  "remove_sites_where P s = s\<lparr>val_sites := filter (\<lambda>p. \<not> P p) (val_sites s)\<rparr>"

record stack_output =
  out_interface :: structure_value
  out_sub_part :: structure_value
  out_film_part :: structure_value
  out_interface_height :: real

text \<open>Lines 531 to 571, from the refined structure to the three returned structures.\<close>

definition finalize :: "stack_input \<Rightarrow> structure_value \<Rightarrow> real \<Rightarrow> stack_output" where
  "finalize inp primitive_interface_struc height =
     (let substrate_species = exclusive_species (substrate_bulk_species inp) (film_bulk_species inp);
          film_species = exclusive_species (film_bulk_species inp) (substrate_bulk_species inp);
          average_sub_height_prim =
            np_mean (map site_z (filter (\<lambda>p. species p \<in> set substrate_species)
                                   (val_sites primitive_interface_struc)));
          average_film_height_prim =
            np_mean (map site_z (filter (\<lambda>p. species p \<in> set film_species)
                                   (val_sites primitive_interface_struc)));
          oriented = (if nan_less average_film_height_prim average_sub_height_prim
                      then flip_structure primitive_interface_struc
                      else primitive_interface_struc);
          centered = (if center inp then translate_all (0, 0, 1 / 2 - height) oriented
                      else oriented);
          interface_height' = (if center inp then 1 / 2 else height);
          primitive_film = remove_sites_where (\<lambda>p. site_z p < interface_height') centered;
          primitive_sub = remove_sites_where (\<lambda>p. interface_height' < site_z p) centered
      in \<lparr>out_interface = centered, out_sub_part = primitive_sub,
          out_film_part = primitive_film, out_interface_height = interface_height'\<rparr>)"

definition stack_interface :: "symmetry_service \<Rightarrow> stack_input \<Rightarrow> error + stack_output" where
  "stack_interface ext inp =
     (case stack_cells inp of
        Inl e \<Rightarrow> Inl e
      | Inr (interface_struc, height) \<Rightarrow> Inr (finalize inp (refine ext interface_struc) height))"

text \<open>An external function that returns as many sites as it is given.\<close>

definition keeps_site_count :: "(structure_value \<Rightarrow> structure_value) \<Rightarrow> bool" where
  "keeps_site_count f \<longleftrightarrow> (\<forall>s. length (val_sites (f s)) = length (val_sites s))"

text \<open>
  A symmetry service on cells that are already reduced, conventional and primitive: it
  returns what it is given.
\<close>

definition identity_service :: symmetry_service where
  "identity_service =
     \<lparr>get_reduced_structure = (\<lambda>s. s),
      get_conventional_standard_structure = (\<lambda>s. s),
      get_primitive_structure = (\<lambda>s. s)\<rparr>"

text \<open>
  The primitive cell of a cell that repeats with period a/2: the first lattice vector is
  halved and the sites of the first half are kept, their first coordinate doubled.
\<close>

definition primitive_of_doubled_cell :: "structure_value \<Rightarrow> structure_value" where
  "primitive_of_doubled_cell s =
     \<lparr>val_lattice = (scale_vec (1 / 2) (row0 (val_lattice s)), row1 (val_lattice s),
                     row2 (val_lattice s)),
      val_sites = map (\<lambda>p. p\<lparr>frac_coords := (2 * x_of (frac_coords p), y_of (frac_coords p),
                                               z_of (frac_coords p))\<rparr>)
                    (filter (\<lambda>p. x_of (frac_coords p) < 1 / 2) (val_sites s))\<rparr>"

definition doubled_cell_service :: symmetry_service where
  "doubled_cell_service =
     \<lparr>get_reduced_structure = (\<lambda>s. s),
      get_conventional_standard_structure = (\<lambda>s. s),
      get_primitive_structure = primitive_of_doubled_cell\<rparr>"

text \<open>
  Two one-layer slabs in a cell doubled along a: two Si atoms below, two Ge atoms above,
  10 of vacuum.
\<close>

definition doubled_input :: "real \<Rightarrow> stack_input" where
  "doubled_input d =
     \<lparr>strained_sub =
        \<lparr>val_lattice = ((2, 0, 0), (0, 1, 0), (0, 0, 10)),
         val_sites = [\<lparr>species = ''Si'', frac_coords = (0, 0, 1 / 2)\<rparr>,
                      \<lparr>species = ''Si'', frac_coords = (1 / 2, 0, 1 / 2)\<rparr>]\<rparr>,
      strained_film =
        \<lparr>val_lattice = ((2, 0, 0), (0, 1, 0), (0, 0, 10)),
         val_sites = [\<lparr>species = ''Ge'', frac_coords = (0, 1 / 2, 1 / 2)\<rparr>,
                      \<lparr>species = ''Ge'', frac_coords = (1 / 2, 1 / 2, 1 / 2)\<rparr>]\<rparr>,
      vacuum = 10 - d,
      distance = d,
      center = False,
      substrate_bulk_species = [''Si''],
      film_bulk_species = [''Ge'']\<rparr>"

text \<open>What stacking the two slabs at a distance of 2 returns when the cell is kept.\<close>

definition doubled_output :: stack_output where
  "doubled_output =
     \<lparr>out_interface =
      \<lparr>val_lattice = ((2, 0, 0), (0, 1, 0), (0, 0, 10)),
       val_sites = [\<lparr>species = ''Si'', frac_coords = (0, 0, 0)\<rparr>,
                \<lparr>species = ''Si'', frac_coords = (1 / 2, 0, 0)\<rparr>,
                \<lparr>species = ''Ge'', frac_coords = (0, 1 / 2, 1 / 5)\<rparr>,
                \<lparr>species = ''Ge'', frac_coords = (1 / 2, 1 / 2, 1 / 5)\<rparr>]\<rparr>,
    out_sub_part =
      \<lparr>val_lattice = ((2, 0, 0), (0, 1, 0), (0, 0, 10)),
       val_sites = [\<lparr>species = ''Si'', frac_coords = (0, 0, 0)\<rparr>,
                \<lparr>species = ''Si'', frac_coords = (1 / 2, 0, 0)\<rparr>]\<rparr>,
    out_film_part =
      \<lparr>val_lattice = ((2, 0, 0), (0, 1, 0), (0, 0, 10)),
       val_sites = [\<lparr>species = ''Ge'', frac_coords = (0, 1 / 2, 1 / 5)\<rparr>,
                \<lparr>species = ''Ge'', frac_coords = (1 / 2, 1 / 2, 1 / 5)\<rparr>]\<rparr>,
    out_interface_height = 1 / 10\<rparr>"

text \<open>
  The constructor stores the three returned structures. The views are deep copies, so each
  structure has its own site objects: the store holds the sites of the interface, then
  those of the substrate view, then those of the film view.
\<close>

definition new_interface :: "stack_output \<Rightarrow> real \<Rightarrow> interface_state" where
  "new_interface out d =
     (let n = length (val_sites (out_interface out));
          m = length (val_sites (out_sub_part out));
          k = length (val_sites (out_film_part out))
      in \<lparr>store = val_sites (out_interface out) @ val_sites (out_sub_part out)
                   @ val_sites (out_film_part out),
          interface = \<lparr>lattice = val_lattice (out_interface out), sites = [0 ..< n]\<rparr>,
          sub_part = \<lparr>lattice = val_lattice (out_sub_part out), sites = [n ..< n + m]\<rparr>,
          film_part = \<lparr>lattice = val_lattice (out_film_part out), sites = [n + m ..< n + m + k]\<rparr>,
          interface_height = out_interface_height out,
          interfacial_distance = d\<rparr>)"

section \<open>Ranking the basin representatives (\<open>run_surface_matching\<close>, lines 1612 to 1625)\<close>

text \<open>\<open>np.round(x, 4)\<close>: \<open>rint(x * 10^4) / 10^4\<close>, where \<open>rint\<close> rounds halves to even.\<close>

definition rint :: "real \<Rightarrow> int" where
  "rint x =
     (let f = \<lfloor>x\<rfloor>; r = x - of_int f
      in if r < 1 / 2 then f else if 1 / 2 < r then f + 1 else if even f then f else f + 1)"

definition np_round4 :: "real \<Rightarrow> real" where
  "np_round4 x = of_int (rint (x * 10000)) / 10000"

text \<open>\<open>np.unique\<close>: the distinct values in ascending order.\<close>

definition np_unique :: "real list \<Rightarrow> real list" where
  "np_unique xs = sort (remdups xs)"

text \<open>\<open>np.linalg.norm(centers, axis=1)\<close>, one row.\<close>

definition center_norm :: "real \<times> real \<Rightarrow> real" where
  "center_norm c = sqrt (fst c * fst c + snd c * snd c)"

text \<open>\<open>np.where(PES_rank_values_2 == u)[0]\<close>\<close>

definition where_equal :: "real list \<Rightarrow> real \<Rightarrow> nat list" where
  "where_equal vs u = filter (\<lambda>k. vs ! k = u) [0 ..< length vs]"

text \<open>\<open>u[np.argmin(np.linalg.norm(min_centers_orig[u], axis=1))]\<close>\<close>

definition closest_to_origin :: "(real \<times> real) list \<Rightarrow> nat list \<Rightarrow> nat" where
  "closest_to_origin min_centers_orig u =
     u ! np_argmin (map (\<lambda>k. center_norm (min_centers_orig ! k)) u)"

text \<open>
  The selection of \<open>min_center_orig\<close> from the three value arrays and the centres. The
  four arrays have one entry per centre; a boolean mask of another length raises.
\<close>

definition select_min_center ::
  "real list \<Rightarrow> real list \<Rightarrow> real list \<Rightarrow> (real \<times> real) list \<Rightarrow> error + (real \<times> real)" where
  "select_min_center PES_values_orig PES_values_sub PES_values_film all_centers_orig =
     (if length PES_values_sub \<noteq> length PES_values_orig
         \<or> length PES_values_film \<noteq> length PES_values_orig
         \<or> length all_centers_orig \<noteq> length PES_values_orig then Inl IndexError
      else
        let PES_rank_values_1 = map np_round4 PES_values_orig;
            unique_PES_values_1 = np_unique PES_rank_values_1
        in if unique_PES_values_1 = [] then Inl IndexError
           else
             let degenerate_min_inds = where_equal PES_rank_values_1 (unique_PES_values_1 ! 0);
                 orig' = map (\<lambda>i. PES_values_orig ! i) degenerate_min_inds;
                 sub' = map (\<lambda>i. PES_values_sub ! i) degenerate_min_inds;
                 film' = map (\<lambda>i. PES_values_film ! i) degenerate_min_inds;
                 min_centers_orig = map (\<lambda>i. all_centers_orig ! i) degenerate_min_inds;
                 PES_rank_values_2 =
                   map (\<lambda>k. np_round4 (orig' ! k + sub' ! k + film' ! k)) [0 ..< length orig'];
                 unique_PES_values_2 = np_unique PES_rank_values_2;
                 unique_inds = map (where_equal PES_rank_values_2) unique_PES_values_2;
                 unique_shift_inds = map (closest_to_origin min_centers_orig) unique_inds;
                 min_shift_inds =
                   unique_shift_inds
                     ! np_argmax (map (\<lambda>k. PES_rank_values_2 ! k) unique_shift_inds)
             in Inr (min_centers_orig ! min_shift_inds))"

text \<open>The two rank values of the centre with index \<open>i\<close>.\<close>

definition rank1 :: "real list \<Rightarrow> nat \<Rightarrow> real" where
  "rank1 orig i = np_round4 (orig ! i)"

definition rank2 :: "real list \<Rightarrow> real list \<Rightarrow> real list \<Rightarrow> nat \<Rightarrow> real" where
  "rank2 orig sub film i = np_round4 (orig ! i + sub ! i + film ! i)"

section \<open>Gaussian parameters of the registration landscape\<close>

















section \<open>The distance bookkeeping of \<open>shift_film\<close> in double precision\<close>

text \<open>
  Lines 278 and 295 add two doubles. The sum of two doubles is the exact sum rounded to the
  nearest number with a 53-bit significand, ties to even. The binary exponent of a non-zero
  number is found by halving or doubling it into the interval from 1 to 2; the exponent
  range is taken as unbounded, so overflow is not modelled (a sum in the subnormal range
  is exact in either case).
\<close>

function exp_hi :: "real \<Rightarrow> int" where
  "exp_hi x = (if 2 \<le> \<bar>x\<bar> then exp_hi (x / 2) + 1 else 0)"
  by pat_completeness auto
termination
proof (relation "measure (\<lambda>x. nat \<lceil>\<bar>x\<bar>\<rceil>)")
  show "wf (measure (\<lambda>x. nat \<lceil>\<bar>x\<bar>\<rceil>))" by simp
next
  fix x :: real
  assume a: "2 \<le> \<bar>x\<bar>"
  have "\<bar>x / 2\<bar> \<le> \<bar>x\<bar> - 1" using a by simp
  then have "\<lceil>\<bar>x / 2\<bar>\<rceil> \<le> \<lceil>\<bar>x\<bar> - 1\<rceil>" by (rule ceiling_mono)
  also have "\<dots> = \<lceil>\<bar>x\<bar>\<rceil> - 1" by simp
  finally have "\<lceil>\<bar>x / 2\<bar>\<rceil> < \<lceil>\<bar>x\<bar>\<rceil>" by simp
  moreover have "0 < \<lceil>\<bar>x\<bar>\<rceil>" using a by (simp add: ceiling_less_iff less_ceiling_iff)
  ultimately show "(x / 2, x) \<in> measure (\<lambda>x. nat \<lceil>\<bar>x\<bar>\<rceil>)" by simp
qed

function exp_lo :: "real \<Rightarrow> int" where
  "exp_lo x = (if x \<noteq> 0 \<and> \<bar>x\<bar> < 1 then exp_lo (2 * x) - 1 else 0)"
  by pat_completeness auto
termination
proof (relation "measure (\<lambda>x. nat \<lceil>1 / \<bar>x\<bar>\<rceil>)")
  show "wf (measure (\<lambda>x. nat \<lceil>1 / \<bar>x\<bar>\<rceil>))" by simp
next
  fix x :: real
  assume a: "x \<noteq> 0 \<and> \<bar>x\<bar> < 1"
  define y where "y = 1 / \<bar>x\<bar>"
  have y: "1 < y" using a by (simp add: y_def)
  have h: "1 / \<bar>2 * x\<bar> = y / 2" by (simp add: y_def)
  have "of_int \<lceil>y / 2\<rceil> < y"
  proof (cases "2 \<le> y")
    case True
    have "of_int \<lceil>y / 2\<rceil> < y / 2 + 1" by linarith
    with True show ?thesis by simp
  next
    case False
    then have "\<lceil>y / 2\<rceil> = 1" using y by (intro ceiling_unique) simp_all
    with y show ?thesis by simp
  qed
  then have "\<lceil>y / 2\<rceil> < \<lceil>y\<rceil>" by (simp add: less_ceiling_iff)
  then have c: "\<lceil>1 / \<bar>2 * x\<bar>\<rceil> < \<lceil>1 / \<bar>x\<bar>\<rceil>" unfolding h unfolding y_def .
  have "0 < \<lceil>y\<rceil>" using y by (simp add: less_ceiling_iff)
  then have p: "0 < \<lceil>1 / \<bar>x\<bar>\<rceil>" unfolding y_def .
  show "(2 * x, x) \<in> measure (\<lambda>x. nat \<lceil>1 / \<bar>x\<bar>\<rceil>)"
    unfolding in_measure zless_nat_conj using c p by (rule conjI[rotated])
qed

declare exp_hi.simps [simp del] exp_lo.simps [simp del]

text \<open>The exponent \<open>e\<close> with \<open>2^e \<le> |x| < 2^(e+1)\<close>.\<close>

definition float_exponent :: "real \<Rightarrow> int" where
  "float_exponent x = (if 1 \<le> \<bar>x\<bar> then exp_hi x else exp_lo x)"

text \<open>Rounding to the nearest double: a multiple of \<open>2^(e-52)\<close>, halves to even.\<close>

definition round_double :: "real \<Rightarrow> real" where
  "round_double x =
     (if x = 0 then 0
      else let ulp = 2 powi (float_exponent x - 52)
           in of_int (rint (x / ulp)) * ulp)"

definition float_add :: "real \<Rightarrow> real \<Rightarrow> real" where
  "float_add x y = round_double (x + y)"

text \<open>
  \<open>shift_film\<close> with the guard of line 278 and the update of line 295 in double
  precision. The translation of the coordinates is left as in \<open>shift_film\<close>.
\<close>

definition shift_film_float ::
  "vec3 \<Rightarrow> bool \<Rightarrow> bool \<Rightarrow> interface_state \<Rightarrow> (error + struc option) \<times> interface_state" where
  "shift_film_float shift fractional inplace st =
     (case (if fractional then Inr shift
            else if float_add (z_of shift) (interfacial_distance st) < 1 / 2 then Inl ValueError
            else get_fractional_coords (lattice (interface st)) shift) of
        Inl e \<Rightarrow> (Inl e, st)
      | Inr frac_shift \<Rightarrow>
          let film_inds = film_ind st in
          if inplace then
            let store1 = translate_sites (interface st) film_inds frac_shift (store st);
                store2 = translate_sites (film_part st)
                           [0 ..< length (sites (film_part st))] frac_shift store1
            in (Inr None,
                st\<lparr>store := store2,
                   interface_height := interface_height st + z_of frac_shift / 2,
                   interfacial_distance := float_add (interfacial_distance st) (z_of shift)\<rparr>)
          else
            let shifted_interface = copy_copy (interface st);
                store1 = translate_sites shifted_interface film_inds frac_shift (store st)
            in (Inr (Some shifted_interface), st\<lparr>store := store1\<rparr>))"

section \<open>Properties of the Miller-index canonicalisation\<close>

lemmas miller_eval =
  canonical_plane_def rows_at_max_def diff_def sign_sum_def h_of_def k_of_def l_of_def
  abs_first_def abs_second_def np_argmax_def get_unique_miller_indices_def sorted_planes_def
  plane_key_def linalg_norm_def norm_sq_def nonneg_count_def

lemma np_max_Max: "np_max vs = Max (set vs)" if "vs \<noteq> []"
proof (cases vs)
  case Nil
  with that show ?thesis by simp
next
  case (Cons a list)
  have "Max (set (a # list)) = fold max list a" by (rule Max.set_eq_fold)
  with Cons show ?thesis by simp
qed

lemma np_max_ge: "vs \<noteq> [] \<Longrightarrow> v \<in> set vs \<Longrightarrow> v \<le> np_max vs"
  by (simp add: np_max_Max)

lemma rows_at_max_iff:
  assumes "rows \<noteq> []"
  shows "p \<in> set (rows_at_max f rows) \<longleftrightarrow> p \<in> set rows \<and> (\<forall>q\<in>set rows. f q \<le> f p)"
proof -
  have m: "np_max (map f rows) = Max (f ` set rows)"
    using assms by (simp add: np_max_Max)
  have fin: "finite (f ` set rows)" "f ` set rows \<noteq> {}" using assms by auto
  show ?thesis
    unfolding rows_at_max_def m using fin
    by (auto simp: Max_ge_iff intro!: Max_eqI[symmetric] antisym)
qed

lemma rows_at_max_nonempty:
  assumes "rows \<noteq> []"
  shows "rows_at_max f rows \<noteq> []"
proof -
  have "Max (f ` set rows) \<in> f ` set rows" using assms by (intro Max_in) auto
  then obtain p where "p \<in> set rows" "f p = Max (f ` set rows)" by auto
  then have "p \<in> set (rows_at_max f rows)"
    using assms by (simp add: rows_at_max_def np_max_Max)
  then show ?thesis by auto
qed

lemma rows_at_max_single: "rows_at_max f [r] = [r]"
  by (simp add: rows_at_max_def)

lemma length_one: "length xs = 1 \<Longrightarrow> xs = [xs ! 0]"
  by (cases xs) auto

lemma first_index_found:
  "\<exists>x\<in>set xs. P x \<Longrightarrow> first_index P xs < length xs \<and> P (xs ! first_index P xs)"
  by (induction xs) auto

lemma np_argmax_ok:
  assumes "vs \<noteq> []"
  shows "np_argmax vs < length vs \<and> vs ! np_argmax vs = np_max vs"
proof -
  have "Max (set vs) \<in> set vs" using assms by (intro Max_in) auto
  then have "\<exists>x\<in>set vs. x = np_max vs" using assms by (simp add: np_max_Max)
  from first_index_found[of vs "\<lambda>v. v = np_max vs", OF this]
  show ?thesis by (simp add: np_argmax_def)
qed

text \<open>
  Whatever branch returns, the representative is one of the rows left by the three mask
  selections and has the largest sign sum among them.
\<close>

lemma canonical_plane_final:
  assumes "ps \<noteq> []"
  shows "\<exists>r. canonical_plane ps = Some r \<and> r \<in> set (final_rows ps)
           \<and> (\<forall>q\<in>set (final_rows ps). sign_sum q \<le> sign_sum r)"
proof -
  let ?A = "rows_at_max diff ps"
  let ?B = "rows_at_max abs_first ?A"
  let ?C = "rows_at_max abs_second ?B"
  have ne: "?A \<noteq> []" "?B \<noteq> []" "?C \<noteq> []"
    using assms by (simp_all add: rows_at_max_nonempty)
  show ?thesis
  proof (cases "length ?A = 1")
    case True
    then have "?A = [?A ! 0]" by (rule length_one)
    then have "?C = [?A ! 0]" by (metis rows_at_max_single)
    with True assms show ?thesis
      by (simp add: canonical_plane_def final_rows_def)
  next
    case A: False
    show ?thesis
    proof (cases "length ?B = 1")
      case True
      then have "?B = [?B ! 0]" by (rule length_one)
      then have "?C = [?B ! 0]" by (metis rows_at_max_single)
      with True A assms show ?thesis
        by (simp add: canonical_plane_def final_rows_def Let_def)
    next
      case B: False
      show ?thesis
      proof (cases "length ?C = 1")
        case True
        then obtain x where x: "?C = [x]" by (cases ?C) auto
        have "canonical_plane ps = Some (?C ! 0)"
          using True A B assms by (simp add: canonical_plane_def Let_def)
        with x show ?thesis
          by (simp add: final_rows_def)
      next
        case C: False
        let ?vs = "map sign_sum ?C"
        have vne: "?vs \<noteq> []" using ne by simp
        from np_argmax_ok[OF vne]
        have i: "np_argmax ?vs < length ?C" and v: "?vs ! np_argmax ?vs = np_max ?vs" by simp_all
        have r: "?C ! np_argmax ?vs \<in> set ?C" using i by simp
        have m: "sign_sum (?C ! np_argmax ?vs) = np_max ?vs" using i v by simp
        have "\<forall>q\<in>set ?C. sign_sum q \<le> sign_sum (?C ! np_argmax ?vs)"
          unfolding m using np_max_ge[OF vne] by simp
        with r A B C assms show ?thesis
          by (simp add: canonical_plane_def final_rows_def Let_def)
      qed
    qed
  qed
qed

lemma diff_negate: "diff (negate_plane p) = diff p"
  by (simp add: diff_def sign_sum_def negate_plane_def h_of_def k_of_def l_of_def)

text \<open>
  C4, as the code has it. Every non-empty class yields a representative taken from the class,
  chosen by the chain: (i) the largest absolute value of the sum of the component signs,
  (ii) among those the largest absolute first component, (iii) then the largest absolute
  second component, (iv) then the largest sum of component signs. Rule (i) gives a triple
  and its negation the same value, so it never decides between the two.
\<close>

theorem canonical_plane_chain:
  assumes "ps \<noteq> []"
  shows "\<exists>r. canonical_plane ps = Some r \<and> r \<in> set ps
     \<and> (\<forall>p\<in>set ps. diff p \<le> diff r)
     \<and> (\<forall>p\<in>set ps. diff p = diff r \<longrightarrow> abs_first p \<le> abs_first r)
     \<and> (\<forall>p\<in>set ps. diff p = diff r \<and> abs_first p = abs_first r
            \<longrightarrow> abs_second p \<le> abs_second r)
     \<and> (\<forall>p\<in>set ps. diff p = diff r \<and> abs_first p = abs_first r
            \<and> abs_second p = abs_second r \<longrightarrow> sign_sum p \<le> sign_sum r)
     \<and> (\<forall>p\<in>set ps. diff (negate_plane p) = diff p)"
proof -
  let ?A = "rows_at_max diff ps"
  let ?B = "rows_at_max abs_first ?A"
  have ne: "?A \<noteq> []" "?B \<noteq> []"
    using assms by (simp_all add: rows_at_max_nonempty)
  from canonical_plane_final[OF assms] obtain r where
    c: "canonical_plane ps = Some r" and r: "r \<in> set (final_rows ps)"
    and s: "\<forall>q\<in>set (final_rows ps). sign_sum q \<le> sign_sum r" by blast
  have rC: "r \<in> set ?B \<and> (\<forall>q\<in>set ?B. abs_second q \<le> abs_second r)"
    using r ne by (simp add: final_rows_def rows_at_max_iff)
  then have rB: "r \<in> set ?A \<and> (\<forall>q\<in>set ?A. abs_first q \<le> abs_first r)"
    using ne by (simp add: rows_at_max_iff)
  then have rA: "r \<in> set ps \<and> (\<forall>q\<in>set ps. diff q \<le> diff r)"
    using assms by (simp add: rows_at_max_iff)
  have inA: "p \<in> set ?A" if "p \<in> set ps" "diff p = diff r" for p
    using that rA assms by (simp add: rows_at_max_iff)
  have inB: "p \<in> set ?B" if "p \<in> set ps" "diff p = diff r" "abs_first p = abs_first r" for p
    using that inA rB ne by (simp add: rows_at_max_iff)
  have inC: "p \<in> set (final_rows ps)"
    if "p \<in> set ps" "diff p = diff r" "abs_first p = abs_first r" "abs_second p = abs_second r"
    for p
    using that inB rC ne by (simp add: final_rows_def rows_at_max_iff)
  show ?thesis
    using c rA rB rC s inA inB inC diff_negate by blast
qed

theorem canonical_plane_chain_witness:
  "canonical_plane [(1, 1, - 1), (- 1, - 1, - 1), (1, 1, 1)] = Some (1, 1, 1)
   \<and> diff (1, 1, - 1) \<le> diff (1, 1, 1)
   \<and> sign_sum (- 1, - 1, - 1) \<le> sign_sum (1, 1, 1)"
proof -
  let ?ps = "[(1, 1, - 1), (- 1, - 1, - 1), (1, 1, 1)] :: plane list"
  have ne: "?ps \<noteq> []" by simp
  have c: "canonical_plane ?ps = Some (1, 1, 1)" by (simp add: miller_eval)
  from canonical_plane_chain[OF ne] c
  have "(\<forall>p\<in>set ?ps. diff p \<le> diff (1, 1, 1))
      \<and> (\<forall>p\<in>set ?ps. diff p = diff (1, 1, 1) \<and> abs_first p = abs_first (1, 1, 1)
            \<and> abs_second p = abs_second (1, 1, 1) \<longrightarrow> sign_sum p \<le> sign_sum (1, 1, 1))"
    by auto
  then have "diff (1, 1, - 1) \<le> diff (1, 1, 1)"
    and "sign_sum (- 1, - 1, - 1) \<le> sign_sum (1, 1, 1)"
    by (simp_all add: miller_eval)
  with c show ?thesis by simp
qed

text \<open>
  C4, as the spec words it, fails on the code. The class of the plane (1, 1, -1) under a
  two-fold axis along c holds (1, 1, -1) and (-1, -1, -1); the code returns (-1, -1, -1),
  which has fewer non-negative components than (1, 1, -1). And the first selection keeps
  both (1, 1, 1) and (-1, -1, -1): rule (i) does not decide between a triple and its negation.
\<close>

theorem canonical_plane_nonneg_counterexample:
  "canonical_plane [(1, 1, - 1), (- 1, - 1, - 1)] = Some (- 1, - 1, - 1)
   \<and> nonneg_count (- 1, - 1, - 1) < nonneg_count (1, 1, - 1)
   \<and> rows_at_max diff [(1, 1, 1), (- 1, - 1, - 1)] = [(1, 1, 1), (- 1, - 1, - 1)]"
  by (simp add: miller_eval)

subsection \<open>The final sort\<close>






section \<open>Properties of \<open>shift_film\<close>\<close>

lemmas vec_eval = x_of_def y_of_def z_of_def vec_add_def vec_neg_def row0_def row1_def row2_def
  vec_dot_matrix_def det3_def inv_matrix_def get_fractional_coords_def to_unit_cell_def

lemmas shift_eval = shift_film_def film_ind_def struct_frac_coords_def translate_sites_def
  translate_site_def copy_copy_def example_state_def Let_def frac_def

lemma translate_site_moved:
  "translate_site s v i sto = sto[sites s ! i := moved v (sto ! (sites s ! i))]"
  by (simp add: translate_site_def moved_def Let_def)

lemma length_translate_sites [simp]:
  "length (translate_sites s inds v sto) = length sto"
  unfolding translate_sites_def
proof (induction inds arbitrary: sto)
  case Nil
  show ?case by simp
next
  case (Cons i inds)
  have "length (translate_site s v i sto) = length sto" by (simp add: translate_site_moved)
  with Cons[of "translate_site s v i sto"] show ?case by simp
qed

lemma translate_sites_nth:
  assumes "distinct inds" "\<forall>i\<in>set inds. i < length (sites s)" "distinct (sites s)"
    "\<forall>a\<in>set (sites s). a < length sto" "a < length sto"
  shows "translate_sites s inds v sto ! a =
           (if a \<in> (\<lambda>i. sites s ! i) ` set inds then moved v (sto ! a) else sto ! a)"
  using assms unfolding translate_sites_def
proof (induction inds arbitrary: sto)
  case Nil
  then show ?case by simp
next
  case (Cons i inds)
  let ?ai = "sites s ! i"
  let ?st1 = "sto[?ai := moved v (sto ! ?ai)]"
  have il: "i < length (sites s)" using Cons.prems by simp
  then have ail: "?ai < length sto" using Cons.prems by simp
  have notin: "?ai \<notin> (\<lambda>i. sites s ! i) ` set inds"
  proof
    assume "?ai \<in> (\<lambda>i. sites s ! i) ` set inds"
    then obtain j where j: "j \<in> set inds" "sites s ! j = ?ai" by auto
    then have "j < length (sites s)" using Cons.prems by simp
    with j il Cons.prems(3) have "j = i" by (simp add: nth_eq_iff_index_eq)
    with j Cons.prems(1) show False by simp
  qed
  have IH: "fold (translate_site s v) inds ?st1 ! a =
      (if a \<in> (\<lambda>i. sites s ! i) ` set inds then moved v (?st1 ! a) else ?st1 ! a)"
    using Cons.prems by (intro Cons.IH) simp_all
  have step: "fold (translate_site s v) (i # inds) sto = fold (translate_site s v) inds ?st1"
    unfolding fold_simps by (simp only: o_apply translate_site_moved)
  show ?case
  proof (cases "a = ?ai")
    case True
    with IH notin ail show ?thesis unfolding step by simp
  next
    case False
    with IH show ?thesis unfolding step by simp
  qed
qed

text \<open>Translating the sites of one structure leaves the coordinates of a structure with other site objects alone.\<close>

lemma translate_sites_other:
  assumes "\<forall>i\<in>set inds. i < length (sites s)" "set (sites s) \<inter> set (sites t) = {}"
  shows "struct_frac_coords (translate_sites s inds v sto) t = struct_frac_coords sto t"
  using assms(1) unfolding translate_sites_def
proof (induction inds arbitrary: sto)
  case Nil
  then show ?case by simp
next
  case (Cons i inds)
  have "sites s ! i \<in> set (sites s)" using Cons.prems by simp
  then have "sites s ! i \<notin> set (sites t)" using assms(2) by auto
  then have "\<forall>x\<in>set (sites t). (sto[sites s ! i := moved v (sto ! (sites s ! i))]) ! x = sto ! x"
    by (metis nth_list_update_neq)
  then have "struct_frac_coords (translate_site s v i sto) t = struct_frac_coords sto t"
    unfolding translate_site_moved by (simp add: struct_frac_coords_def)
  moreover have "fold (translate_site s v) (i # inds) sto
      = fold (translate_site s v) inds (translate_site s v i sto)"
    by simp
  ultimately show ?case using Cons by (simp del: fold_simps)
qed

lemma translate_sites_coords:
  assumes "distinct inds" "\<forall>i\<in>set inds. i < length (sites s)" "distinct (sites s)"
    "\<forall>a\<in>set (sites s). a < length sto"
  shows "struct_frac_coords (translate_sites s inds v sto) s =
     map (\<lambda>j. if j \<in> set inds
               then to_unit_cell (vec_add (struct_frac_coords sto s ! j) v)
               else struct_frac_coords sto s ! j) [0 ..< length (sites s)]"
proof (rule nth_equalityI)
  show "length (struct_frac_coords (translate_sites s inds v sto) s) =
    length (map (\<lambda>j. if j \<in> set inds
               then to_unit_cell (vec_add (struct_frac_coords sto s ! j) v)
               else struct_frac_coords sto s ! j) [0 ..< length (sites s)])"
    by (simp add: struct_frac_coords_def)
next
  fix j assume "j < length (struct_frac_coords (translate_sites s inds v sto) s)"
  then have j: "j < length (sites s)" by (simp add: struct_frac_coords_def)
  then have al: "sites s ! j < length sto" using assms(4) by simp
  have mem: "sites s ! j \<in> (\<lambda>i. sites s ! i) ` set inds \<longleftrightarrow> j \<in> set inds"
  proof
    assume "sites s ! j \<in> (\<lambda>i. sites s ! i) ` set inds"
    then obtain i where i: "i \<in> set inds" "sites s ! i = sites s ! j" by auto
    then have "i < length (sites s)" using assms(2) by simp
    with i j assms(3) have "i = j" by (simp add: nth_eq_iff_index_eq)
    with i show "j \<in> set inds" by simp
  qed auto
  show "struct_frac_coords (translate_sites s inds v sto) s ! j =
    map (\<lambda>j. if j \<in> set inds
               then to_unit_cell (vec_add (struct_frac_coords sto s ! j) v)
               else struct_frac_coords sto s ! j) [0 ..< length (sites s)] ! j"
    using j translate_sites_nth[OF assms al, of v] mem
    by (simp add: struct_frac_coords_def moved_def)
qed

lemma film_ind_props:
  "distinct (film_ind st)" "\<forall>i\<in>set (film_ind st). i < length (sites (interface st))"
  by (simp_all add: film_ind_def)

lemma film_ind_mem:
  "j < length (sites (interface st)) \<Longrightarrow>
   j \<in> set (film_ind st) \<longleftrightarrow>
     is_film_coord (interface_height st) (struct_frac_coords (store st) (interface st) ! j)"
  by (simp add: film_ind_def is_film_coord_def)

lemma interface_coords_after_translate:
  assumes "wf_state st"
  shows "struct_frac_coords (translate_sites (interface st) (film_ind st) v (store st)) (interface st)
     = map (\<lambda>c. if is_film_coord (interface_height st) c then to_unit_cell (vec_add c v) else c)
         (struct_frac_coords (store st) (interface st))"
proof -
  have d: "distinct (sites (interface st))"
    and r: "\<forall>a\<in>set (sites (interface st)). a < length (store st)"
    using assms by (auto simp: wf_state_def list_all_iff)
  have "struct_frac_coords (translate_sites (interface st) (film_ind st) v (store st)) (interface st)
     = map (\<lambda>j. if j \<in> set (film_ind st)
               then to_unit_cell (vec_add (struct_frac_coords (store st) (interface st) ! j) v)
               else struct_frac_coords (store st) (interface st) ! j)
         [0 ..< length (sites (interface st))]"
    by (rule translate_sites_coords[OF film_ind_props d r])
  also have "\<dots> = map (\<lambda>c. if is_film_coord (interface_height st) c then to_unit_cell (vec_add c v) else c)
         (struct_frac_coords (store st) (interface st))"
    by (rule nth_equalityI) (simp_all add: struct_frac_coords_def film_ind_mem)
  finally show ?thesis .
qed

text \<open>
  C10. In fractional mode no distance check is made: whatever the shift, and in both the
  in-place and the copying branch, the call returns without an error, and afterwards every
  site of the interface that the film mask selects sits at its old position plus the shift,
  wrapped into the unit cell, while the other sites are where they were.
\<close>

theorem shift_film_fractional:
  assumes "wf_state st"
  shows "(\<exists>ret. fst (shift_film shift True inplace st) = Inr ret)
    \<and> struct_frac_coords (store (snd (shift_film shift True inplace st))) (interface st)
      = map (\<lambda>c. if is_film_coord (interface_height st) c
                  then to_unit_cell (vec_add c shift) else c)
          (struct_frac_coords (store st) (interface st))"
proof (cases inplace)
  case True
  have disj: "set (sites (film_part st)) \<inter> set (sites (interface st)) = {}"
    using assms by (auto simp: wf_state_def)
  have "struct_frac_coords
          (translate_sites (film_part st) [0 ..< length (sites (film_part st))] shift
             (translate_sites (interface st) (film_ind st) shift (store st))) (interface st)
        = struct_frac_coords (translate_sites (interface st) (film_ind st) shift (store st)) (interface st)"
    by (rule translate_sites_other) (use disj in auto)
  with True interface_coords_after_translate[OF assms, of shift] show ?thesis
    by (simp add: shift_film_def Let_def)
next
  case False
  with interface_coords_after_translate[OF assms, of shift] show ?thesis
    by (simp add: shift_film_def Let_def copy_copy_def)
qed

lemma shift_film_error_state:
  "fst (shift_film s fractional inplace st) = Inl e \<Longrightarrow> snd (shift_film s fractional inplace st) = st"
  by (auto simp: shift_film_def Let_def split: sum.splits if_splits)





text \<open>
  C3 on the code. With \<open>inplace=False\<close> the returned structure is a shallow copy that holds
  the site objects of the caller's interface, and \<open>translate_sites\<close> updates those objects:
  after the call the caller's interface reads the film atom at height 3/5 instead of 1/2.
  Only \<open>interface_height\<close> and \<open>interfacial_distance\<close> are as before.
\<close>

theorem shift_film_copy_aliasing: "struct_frac_coords (store (example_state 2)) (interface (example_state 2))
      = [(0, 0, 2 / 5), (0, 0, 1 / 2)]
   \<and> fst (shift_film (0, 0, 1 / 10) True False (example_state 2))
      = Inr (Some (interface (example_state 2)))
   \<and> struct_frac_coords (store (snd (shift_film (0, 0, 1 / 10) True False (example_state 2))))
        (interface (snd (shift_film (0, 0, 1 / 10) True False (example_state 2))))
      = [(0, 0, 2 / 5), (0, 0, 3 / 5)]
   \<and> interface_height (snd (shift_film (0, 0, 1 / 10) True False (example_state 2))) = 9 / 20
   \<and> interfacial_distance (snd (shift_film (0, 0, 1 / 10) True False (example_state 2))) = 2"
  by (simp add: shift_eval vec_eval)

lemma wf_example: "wf_state (example_state d)"
  by (simp add: wf_state_def example_state_def)

theorem shift_film_fractional_witness:
  "fst (shift_film (0, 0, - 9 / 100) True True (example_state 2)) = Inr None
   \<and> struct_frac_coords (store (snd (shift_film (0, 0, - 9 / 100) True True (example_state 2))))
        (interface (example_state 2)) = [(0, 0, 2 / 5), (0, 0, 41 / 100)]"
  using shift_film_fractional[OF wf_example, of "(0, 0, - 9 / 100)" True 2]
  by (simp add: shift_eval vec_eval)

subsection \<open>The round trip in double precision\<close>

lemmas float_eval = round_double_def float_exponent_def float_add_def exp_hi.simps exp_lo.simps
  rint_def Let_def power_int_minus

lemma exp_hi_bounds:
  "1 \<le> \<bar>x\<bar> \<Longrightarrow> 2 powi exp_hi x \<le> \<bar>x\<bar> \<and> \<bar>x\<bar> < 2 * 2 powi exp_hi x"
proof (induction x rule: exp_hi.induct)
  case (1 x)
  show ?case
  proof (cases "2 \<le> \<bar>x\<bar>")
    case True
    then have "1 \<le> \<bar>x / 2\<bar>" by simp
    with 1 True have ih: "2 powi exp_hi (x / 2) \<le> \<bar>x / 2\<bar>"
      "\<bar>x / 2\<bar> < 2 * 2 powi exp_hi (x / 2)" by simp_all
    have e: "exp_hi x = exp_hi (x / 2) + 1" using True by (simp add: exp_hi.simps[of x])
    have p: "2 powi (exp_hi (x / 2) + 1) = 2 * (2::real) powi exp_hi (x / 2)"
      by (simp add: power_int_add)
    show ?thesis unfolding e p using ih by simp
  next
    case False
    then have "exp_hi x = 0" by (simp add: exp_hi.simps[of x])
    with False 1 show ?thesis by simp
  qed
qed

lemma exp_lo_bounds:
  "x \<noteq> 0 \<Longrightarrow> \<bar>x\<bar> < 1 \<Longrightarrow> 2 powi exp_lo x \<le> \<bar>x\<bar> \<and> \<bar>x\<bar> < 2 * 2 powi exp_lo x"
proof (induction x rule: exp_lo.induct)
  case (1 x)
  have e: "exp_lo x = exp_lo (2 * x) - 1" using 1(2,3) by (simp add: exp_lo.simps[of x])
  have p: "2 * (2::real) powi (exp_lo (2 * x) - 1) = 2 powi exp_lo (2 * x)"
    by (simp add: power_int_diff)
  show ?case
  proof (cases "\<bar>2 * x\<bar> < 1")
    case True
    with 1 have "2 powi exp_lo (2 * x) \<le> \<bar>2 * x\<bar>" "\<bar>2 * x\<bar> < 2 * 2 powi exp_lo (2 * x)"
      by simp_all
    then show ?thesis unfolding e using p by (simp add: abs_mult)
  next
    case False
    then have z: "exp_lo (2 * x) = 0" by (simp add: exp_lo.simps[of "2 * x"])
    have "(2::real) powi (0 - 1) = 1 / 2" by (simp add: power_int_minus)
    with False 1(3) show ?thesis unfolding e z by (simp add: abs_mult)
  qed
qed

lemma float_exponent_bounds:
  assumes "x \<noteq> 0"
  shows "2 powi float_exponent x \<le> \<bar>x\<bar>"
  using assms exp_hi_bounds[of x] exp_lo_bounds[of x]
  by (auto simp: float_exponent_def)

lemma rint_error: "\<bar>of_int (rint y) - y\<bar> \<le> 1 / 2"
  unfolding rint_def Let_def by (auto simp: abs_le_iff)

lemma round_double_error: "\<bar>round_double x - x\<bar> \<le> 2 powi (- 53) * \<bar>x\<bar>"
proof (cases "x = 0")
  case True
  then show ?thesis by (simp add: round_double_def)
next
  case False
  define ulp :: real where "ulp = 2 powi (float_exponent x - 52)"
  have up: "0 < ulp" by (simp add: ulp_def)
  have r: "round_double x = of_int (rint (x / ulp)) * ulp"
    using False by (simp add: round_double_def ulp_def Let_def)
  have "round_double x - x = (of_int (rint (x / ulp)) - x / ulp) * ulp"
    unfolding r using up by (simp add: field_simps)
  then have "\<bar>round_double x - x\<bar> = \<bar>of_int (rint (x / ulp)) - x / ulp\<bar> * \<bar>ulp\<bar>"
    by (simp only: abs_mult)
  also have "\<dots> = \<bar>of_int (rint (x / ulp)) - x / ulp\<bar> * ulp"
    using up by simp
  also have "\<dots> \<le> 1 / 2 * ulp"
    using rint_error[of "x / ulp"] up by (intro mult_right_mono) simp_all
  also have "1 / 2 * ulp = 2 powi (- 53) * 2 powi float_exponent x"
    unfolding ulp_def by (simp add: power_int_diff power_int_minus field_simps)
  also have "\<dots> \<le> 2 powi (- 53) * \<bar>x\<bar>"
    using float_exponent_bounds[OF False] by (intro mult_left_mono) simp_all
  finally show ?thesis .
qed

lemma float_add_error: "\<bar>float_add a b - (a + b)\<bar> \<le> 2 powi (- 53) * \<bar>a + b\<bar>"
  unfolding float_add_def by (rule round_double_error)

lemma shift_film_float_accepted:
  assumes "fst (shift_film_float v False True st) = Inr None"
  shows "interfacial_distance (snd (shift_film_float v False True st))
       = float_add (interfacial_distance st) (z_of v)"
  using assms by (auto simp: shift_film_float_def Let_def split: sum.splits if_splits)

text \<open>
  C8, as the code has it, in double precision. When the in-place cartesian shift by \<open>v\<close>
  and the following in-place cartesian shift by \<open>-v\<close> are both accepted,
  \<open>interfacial_distance\<close> is back at its original value \<open>d\<close> up to the rounding of the
  two additions: it differs from \<open>d\<close> by at most \<open>2^-52 * (|d| + |d + v_z|)\<close>.
\<close>

theorem shift_film_float_round_trip:
  assumes "fst (shift_film_float v False True st) = Inr None"
    and "fst (shift_film_float (vec_neg v) False True
               (snd (shift_film_float v False True st))) = Inr None"
  shows "\<bar>interfacial_distance
          (snd (shift_film_float (vec_neg v) False True
                  (snd (shift_film_float v False True st))))
        - interfacial_distance st\<bar>
     \<le> 2 powi (- 52) * (\<bar>interfacial_distance st\<bar> + \<bar>interfacial_distance st + z_of v\<bar>)"
proof -
  define d where "d = interfacial_distance st"
  define z where "z = z_of v"
  define u :: real where "u = 2 powi (- 53)"
  define d1 where "d1 = float_add d z"
  define d2 where "d2 = float_add d1 (- z)"
  have zn: "z_of (vec_neg v) = - z" by (simp add: vec_neg_def z_of_def z_def)
  have s1: "interfacial_distance (snd (shift_film_float v False True st)) = d1"
    unfolding d1_def d_def z_def by (rule shift_film_float_accepted[OF assms(1)])
  have s2: "interfacial_distance
          (snd (shift_film_float (vec_neg v) False True
                  (snd (shift_film_float v False True st)))) = d2"
    unfolding d2_def using shift_film_float_accepted[OF assms(2)] s1 zn by simp
  have u0: "0 \<le> u" and u1: "u \<le> 1" and uu: "2 * u = 2 powi (- 52)"
    by (simp_all add: u_def power_int_minus divide_simps)
  have e1: "\<bar>d1 - (d + z)\<bar> \<le> u * \<bar>d + z\<bar>"
    unfolding d1_def u_def by (rule float_add_error)
  have e2: "\<bar>d2 - (d1 - z)\<bar> \<le> u * \<bar>d1 - z\<bar>"
    unfolding d2_def u_def using float_add_error[of d1 "- z"] by simp
  have "\<bar>d1 - z\<bar> \<le> \<bar>d\<bar> + \<bar>d1 - (d + z)\<bar>" by simp
  also have "\<dots> \<le> \<bar>d\<bar> + u * \<bar>d + z\<bar>" using e1 by simp
  also have "\<dots> \<le> \<bar>d\<bar> + \<bar>d + z\<bar>"
    using mult_right_mono[OF u1, of "\<bar>d + z\<bar>"] by simp
  finally have b: "\<bar>d1 - z\<bar> \<le> \<bar>d\<bar> + \<bar>d + z\<bar>" .
  have "\<bar>d2 - d\<bar> \<le> \<bar>d2 - (d1 - z)\<bar> + \<bar>d1 - (d + z)\<bar>" by simp
  also have "\<dots> \<le> u * \<bar>d1 - z\<bar> + u * \<bar>d + z\<bar>" using e1 e2 by simp
  also have "\<dots> \<le> u * (\<bar>d\<bar> + \<bar>d + z\<bar>) + u * (\<bar>d\<bar> + \<bar>d + z\<bar>)"
    using b u0 by (intro add_mono mult_left_mono) simp_all
  also have "\<dots> = 2 powi (- 52) * (\<bar>d\<bar> + \<bar>d + z\<bar>)"
    unfolding uu[symmetric] by simp
  finally show ?thesis unfolding s2 d_def z_def .
qed

lemmas shift_float_eval = shift_film_float_def film_ind_def struct_frac_coords_def
  translate_sites_def translate_site_def copy_copy_def example_state_def

text \<open>
  C8 as stated fails when the reverse shift is refused. From a distance of 0.5 the shift by
  the double nearest to 0.063 is accepted and stores 0.563 rounded down; minus the shift
  this gives 0.49999999999999994, which is below 0.5, so the reverse call raises and the
  distance stays at 0.563.
\<close>

theorem shift_film_float_round_trip_counterexample:
  "round_double (63 / 1000) = 1134907106097365 / 18014398509481984
   \<and> fst (shift_film_float (0, 0, 1134907106097365 / 18014398509481984) False True
            (example_state (1 / 2))) = Inr None
   \<and> fst (shift_film_float (vec_neg (0, 0, 1134907106097365 / 18014398509481984)) False True
            (snd (shift_film_float (0, 0, 1134907106097365 / 18014398509481984) False True
                    (example_state (1 / 2))))) = Inl ValueError
   \<and> interfacial_distance
        (snd (shift_film_float (vec_neg (0, 0, 1134907106097365 / 18014398509481984)) False True
            (snd (shift_film_float (0, 0, 1134907106097365 / 18014398509481984) False True
                    (example_state (1 / 2))))))
      = 2535526590209589 / 4503599627370496"
  by (simp add: shift_float_eval vec_eval float_eval frac_def)

theorem shift_film_float_round_trip_witness:
  "fst (shift_film_float (0, 0, 1) False True (example_state 2)) = Inr None
   \<and> fst (shift_film_float (vec_neg (0, 0, 1)) False True
            (snd (shift_film_float (0, 0, 1) False True (example_state 2)))) = Inr None
   \<and> interfacial_distance
        (snd (shift_film_float (vec_neg (0, 0, 1)) False True
            (snd (shift_film_float (0, 0, 1) False True (example_state 2))))) = 2"
proof -
  have a: "fst (shift_film_float (0, 0, 1) False True (example_state 2)) = Inr None"
    by (simp add: shift_float_eval vec_eval float_eval frac_def)
  have b: "fst (shift_film_float (vec_neg (0, 0, 1)) False True
            (snd (shift_film_float (0, 0, 1) False True (example_state 2)))) = Inr None"
    by (simp add: shift_float_eval vec_eval float_eval frac_def)
  have c: "interfacial_distance
        (snd (shift_film_float (vec_neg (0, 0, 1)) False True
            (snd (shift_film_float (0, 0, 1) False True (example_state 2))))) = 2"
    by (simp add: shift_float_eval vec_eval float_eval frac_def)
  from shift_film_float_round_trip[OF a b] a b c show ?thesis by simp
qed

section \<open>Properties of \<open>_stack_interface\<close>\<close>

lemma sqrt_100: "sqrt 100 = 10"
  by (rule real_sqrt_unique) simp_all

lemmas stack_eval = stack_interface_def stack_cells_def finalize_def refine_def
  identity_service_def doubled_cell_service_def primitive_of_doubled_cell_def doubled_input_def
  site_z_def set_z_def wrap_site_def linalg_norm3_def last_column_def scale_vec_def
  exclusive_species_def np_mean_def nan_less_def flip_structure_def flip_site_def
  translate_all_def moved_def remove_sites_where_def sqrt_100 frac_def Let_def

lemma stack_cells_count:
  assumes "stack_cells inp = Inr (stacked, h)"
  shows "length (val_sites stacked)
       = length (val_sites (strained_sub inp)) + length (val_sites (strained_film inp))"
  using assms by (auto simp: stack_cells_def Let_def split: if_splits)

lemma finalize_count:
  "length (val_sites (out_interface (finalize inp p h))) = length (val_sites p)"
  by (simp add: finalize_def Let_def flip_structure_def translate_all_def)

text \<open>
  C1, as the code has it. Whenever \<open>_stack_interface\<close> returns, the stacked structure it
  built holds exactly the sites of the substrate supercell plus those of the film supercell,
  and the flip and the recentring keep the number of sites of the refined structure. So the
  returned interface has that many sites whenever the three external reductions return as
  many sites as they are given.
\<close>

theorem stack_interface_site_count:
  assumes "stack_interface ext inp = Inr out"
  shows "\<exists>stacked h. stack_cells inp = Inr (stacked, h)
     \<and> length (val_sites stacked)
         = length (val_sites (strained_sub inp)) + length (val_sites (strained_film inp))
     \<and> length (val_sites (out_interface out)) = length (val_sites (refine ext stacked))
     \<and> (keeps_site_count (get_reduced_structure ext)
          \<and> keeps_site_count (get_conventional_standard_structure ext)
          \<and> keeps_site_count (get_primitive_structure ext)
        \<longrightarrow> length (val_sites (out_interface out))
         = length (val_sites (strained_sub inp)) + length (val_sites (strained_film inp)))"
proof -
  from assms obtain stacked h where sc: "stack_cells inp = Inr (stacked, h)"
    and out: "out = finalize inp (refine ext stacked) h"
    by (auto simp: stack_interface_def split: sum.splits)
  have n: "length (val_sites stacked)
       = length (val_sites (strained_sub inp)) + length (val_sites (strained_film inp))"
    using sc by (rule stack_cells_count)
  have f: "length (val_sites (out_interface out)) = length (val_sites (refine ext stacked))"
    unfolding out by (rule finalize_count)
  have "length (val_sites (refine ext stacked)) = length (val_sites stacked)"
    if "keeps_site_count (get_reduced_structure ext)"
      "keeps_site_count (get_conventional_standard_structure ext)"
      "keeps_site_count (get_primitive_structure ext)"
    using that by (simp add: refine_def keeps_site_count_def)
  with sc n f show ?thesis by simp
qed

lemma identity_keeps:
  "keeps_site_count (get_reduced_structure identity_service)"
  "keeps_site_count (get_conventional_standard_structure identity_service)"
  "keeps_site_count (get_primitive_structure identity_service)"
  by (simp_all add: keeps_site_count_def identity_service_def)

lemma stack_identity_2:
  "stack_interface identity_service (doubled_input 2) =
     Inr doubled_output"
  by (simp add: doubled_output_def stack_eval vec_eval)

theorem stack_interface_site_count_witness:
  "length (val_sites (out_interface doubled_output))
   = length (val_sites (strained_sub (doubled_input 2)))
     + length (val_sites (strained_film (doubled_input 2)))"
  using stack_interface_site_count[OF stack_identity_2] identity_keeps
  by (simp add: doubled_input_def doubled_output_def)

text \<open>
  C1 as stated fails when the stacked cell is not primitive. Two slabs of two atoms each,
  both repeating with half the first lattice vector, are stacked into four sites; the
  primitive cell of the result has two, and these two are what is returned.
\<close>

theorem stack_interface_site_count_counterexample:
  "stack_interface doubled_cell_service (doubled_input 2) =
     Inr \<lparr>out_interface =
            \<lparr>val_lattice = ((1, 0, 0), (0, 1, 0), (0, 0, 10)),
             val_sites = [\<lparr>species = ''Si'', frac_coords = (0, 0, 0)\<rparr>,
                          \<lparr>species = ''Ge'', frac_coords = (0, 1 / 2, 1 / 5)\<rparr>]\<rparr>,
          out_sub_part =
            \<lparr>val_lattice = ((1, 0, 0), (0, 1, 0), (0, 0, 10)),
             val_sites = [\<lparr>species = ''Si'', frac_coords = (0, 0, 0)\<rparr>]\<rparr>,
          out_film_part =
            \<lparr>val_lattice = ((1, 0, 0), (0, 1, 0), (0, 0, 10)),
             val_sites = [\<lparr>species = ''Ge'', frac_coords = (0, 1 / 2, 1 / 5)\<rparr>]\<rparr>,
          out_interface_height = 1 / 10\<rparr>
   \<and> length (val_sites (strained_sub (doubled_input 2)))
     + length (val_sites (strained_film (doubled_input 2))) = 4"
  by (simp add: stack_eval vec_eval)

text \<open>
  C9 on the code. The two slabs are stacked at an interfacial distance of 0, so the
  substrate atom, the film atom and \<open>interface_height\<close> are all at height 0. The selections
  of lines 565 and 566 are strict and select no site, nothing is removed from either copy,
  and both views hold both atoms: the film view holds the substrate atom and the substrate
  view the film atom.
\<close>

theorem stack_interface_boundary_overlap:
  "stack_interface doubled_cell_service (doubled_input 0) =
     Inr \<lparr>out_interface =
            \<lparr>val_lattice = ((1, 0, 0), (0, 1, 0), (0, 0, 10)),
             val_sites = [\<lparr>species = ''Si'', frac_coords = (0, 0, 0)\<rparr>,
                          \<lparr>species = ''Ge'', frac_coords = (0, 1 / 2, 0)\<rparr>]\<rparr>,
          out_sub_part =
            \<lparr>val_lattice = ((1, 0, 0), (0, 1, 0), (0, 0, 10)),
             val_sites = [\<lparr>species = ''Si'', frac_coords = (0, 0, 0)\<rparr>,
                          \<lparr>species = ''Ge'', frac_coords = (0, 1 / 2, 0)\<rparr>]\<rparr>,
          out_film_part =
            \<lparr>val_lattice = ((1, 0, 0), (0, 1, 0), (0, 0, 10)),
             val_sites = [\<lparr>species = ''Si'', frac_coords = (0, 0, 0)\<rparr>,
                          \<lparr>species = ''Ge'', frac_coords = (0, 1 / 2, 0)\<rparr>]\<rparr>,
          out_interface_height = 0\<rparr>"
  by (simp add: stack_eval vec_eval)

text \<open>The state the constructor builds satisfies what the shift theorems assume.\<close>

lemma upt_three: "[0 ..< n] @ [n ..< n + m] @ [n + m ..< n + m + k] = [0 ..< n + m + (k::nat)]"
proof -
  have a: "[n ..< n + m] @ [n + m ..< n + m + k] = [n ..< n + m + k]"
    using upt_add_eq_append[of n "n + m" k] by simp
  have b: "[0 ..< n] @ [n ..< n + (m + k)] = [0 ..< n + (m + k)]"
    using upt_add_eq_append[of 0 n "m + k"] by simp
  show ?thesis unfolding a using b by (simp only: add.assoc)
qed

lemma wf_new_interface: "wf_state (new_interface out d)"
proof -
  let ?n = "length (val_sites (out_interface out))"
  let ?m = "length (val_sites (out_sub_part out))"
  let ?k = "length (val_sites (out_film_part out))"
  have d: "distinct ([0 ..< ?n] @ [?n ..< ?n + ?m] @ [?n + ?m ..< ?n + ?m + ?k])"
    unfolding upt_three by (rule distinct_upt)
  have l: "list_all (\<lambda>a. a < ?n + ?m + ?k) ([0 ..< ?n] @ [?n ..< ?n + ?m] @ [?n + ?m ..< ?n + ?m + ?k])"
    unfolding upt_three by (simp add: list_all_iff)
  have s: "sites (interface (new_interface out d)) @ sites (sub_part (new_interface out d))
       @ sites (film_part (new_interface out d))
       = [0 ..< ?n] @ [?n ..< ?n + ?m] @ [?n + ?m ..< ?n + ?m + ?k]"
    by (simp add: new_interface_def Let_def)
  have len: "length (store (new_interface out d)) = ?n + ?m + ?k"
    by (simp add: new_interface_def Let_def)
  show ?thesis
    unfolding wf_state_def s len using d l by (rule conjI)
qed

section \<open>Properties of the ranking of basin representatives\<close>

lemma np_min_Min: "np_min vs = Min (set vs)" if "vs \<noteq> []"
proof (cases vs)
  case Nil
  with that show ?thesis by simp
next
  case (Cons a list)
  have "Min (set (a # list)) = fold min list a" by (rule Min.set_eq_fold)
  with Cons show ?thesis by simp
qed

lemma np_min_le: "vs \<noteq> [] \<Longrightarrow> v \<in> set vs \<Longrightarrow> np_min vs \<le> v"
  by (simp add: np_min_Min)

lemma np_argmin_ok:
  assumes "vs \<noteq> []"
  shows "np_argmin vs < length vs \<and> vs ! np_argmin vs = np_min vs"
proof -
  have "Min (set vs) \<in> set vs" using assms by (intro Min_in) auto
  then have "\<exists>x\<in>set vs. x = np_min vs" using assms by (simp add: np_min_Min)
  from first_index_found[of vs "\<lambda>v. v = np_min vs", OF this]
  show ?thesis by (simp add: np_argmin_def)
qed

lemma set_np_unique [simp]: "set (np_unique xs) = set xs"
  by (simp add: np_unique_def)

lemma np_unique_head_least:
  assumes "xs \<noteq> []"
  shows "np_unique xs \<noteq> [] \<and> np_unique xs ! 0 \<in> set xs \<and> (\<forall>x\<in>set xs. np_unique xs ! 0 \<le> x)"
proof -
  have ne: "np_unique xs \<noteq> []"
    using assms by (metis set_np_unique set_empty)
  then obtain a rest where ar: "np_unique xs = a # rest" by (cases "np_unique xs") auto
  have "sorted (np_unique xs)" by (simp add: np_unique_def)
  with ar have "\<forall>x\<in>set (a # rest). a \<le> x" by auto
  moreover have "set (a # rest) = set xs" using ar by (metis set_np_unique)
  ultimately show ?thesis using ar ne by auto
qed

lemma where_equal_iff: "k \<in> set (where_equal vs u) \<longleftrightarrow> k < length vs \<and> vs ! k = u"
  by (auto simp: where_equal_def)

lemma closest_to_origin_ok:
  assumes "u \<noteq> []"
  shows "closest_to_origin cs u \<in> set u
     \<and> (\<forall>k\<in>set u. center_norm (cs ! closest_to_origin cs u) \<le> center_norm (cs ! k))"
proof -
  let ?ns = "map (\<lambda>k. center_norm (cs ! k)) u"
  have ne: "?ns \<noteq> []" using assms by simp
  from np_argmin_ok[OF ne] have i: "np_argmin ?ns < length u"
    and v: "?ns ! np_argmin ?ns = np_min ?ns" by simp_all
  have "center_norm (cs ! (u ! np_argmin ?ns)) = np_min ?ns" using i v by simp
  moreover have "\<forall>k\<in>set u. np_min ?ns \<le> center_norm (cs ! k)"
    using np_min_le[OF ne] by simp
  ultimately show ?thesis using i by (simp add: closest_to_origin_def)
qed

text \<open>The second stage alone: ranks in \<open>r2\<close>, centres in \<open>cs\<close>.\<close>

lemma second_stage:
  fixes cs :: "(real \<times> real) list" and r2 :: "real list"
  assumes "r2 \<noteq> []"
  defines "pick \<equiv> map (closest_to_origin cs) (map (where_equal r2) (np_unique r2))"
  defines "m \<equiv> pick ! np_argmax (map (\<lambda>k. r2 ! k) pick)"
  shows "m < length r2 \<and> (\<forall>k<length r2. r2 ! k \<le> r2 ! m)
     \<and> (\<forall>k<length r2. r2 ! k = r2 ! m \<longrightarrow> center_norm (cs ! m) \<le> center_norm (cs ! k))"
proof -
  have une: "np_unique r2 \<noteq> []" using assms(1) np_unique_head_least by blast
  have grp: "where_equal r2 u \<noteq> []" if "u \<in> set r2" for u
  proof -
    from that obtain k where "k < length r2" "r2 ! k = u" by (auto simp: in_set_conv_nth)
    then have "k \<in> set (where_equal r2 u)" by (simp add: where_equal_iff)
    then show ?thesis by auto
  qed
  have pk: "closest_to_origin cs (where_equal r2 u) < length r2
      \<and> r2 ! closest_to_origin cs (where_equal r2 u) = u
      \<and> (\<forall>k<length r2. r2 ! k = u \<longrightarrow>
            center_norm (cs ! closest_to_origin cs (where_equal r2 u)) \<le> center_norm (cs ! k))"
    if "u \<in> set r2" for u
    using closest_to_origin_ok[OF grp[OF that], of cs] by (auto simp: where_equal_iff)
  have pne: "pick \<noteq> []" using une by (simp add: pick_def)
  let ?vals = "map (\<lambda>k. r2 ! k) pick"
  have "map (\<lambda>u. r2 ! closest_to_origin cs (where_equal r2 u)) (np_unique r2) = np_unique r2"
    by (rule map_idI) (use pk in simp)
  then have vals: "?vals = np_unique r2"
    unfolding pick_def by (simp add: comp_def)
  have vne: "?vals \<noteq> []" using pne by simp
  from np_argmax_ok[OF vne] have i: "np_argmax ?vals < length pick"
    and v: "?vals ! np_argmax ?vals = np_max ?vals" by simp_all
  have mv: "r2 ! m = np_max ?vals" using i v by (simp add: m_def)
  have "m \<in> set pick" using i by (simp add: m_def)
  then obtain u where u: "u \<in> set r2" "m = closest_to_origin cs (where_equal r2 u)"
    by (auto simp: pick_def)
  have mu: "r2 ! m = u" using pk[OF u(1)] u(2) by simp
  have top: "\<forall>k<length r2. r2 ! k \<le> r2 ! m"
  proof (intro allI impI)
    fix k assume "k < length r2"
    then have "r2 ! k \<in> set ?vals" unfolding vals by simp
    then show "r2 ! k \<le> r2 ! m" unfolding mv using np_max_ge[OF vne] by blast
  qed
  show ?thesis using pk[OF u(1)] u(2) mu top by auto
qed

text \<open>
  C5, as the code has it. Given one value of each landscape per centre and at least one
  centre, the call returns a centre that (1) has the lowest rounded primary value, (2) among
  the centres with that value has the highest rounded sum of the primary and the two
  depth-corrected values, and (3) among those is closest to the origin.
\<close>

theorem select_min_center_rank:
  assumes "length sub = length orig" "length film = length orig"
    "length centers = length orig" "orig \<noteq> []"
  shows "\<exists>j<length orig. select_min_center orig sub film centers = Inr (centers ! j)
     \<and> (\<forall>i<length orig. rank1 orig j \<le> rank1 orig i)
     \<and> (\<forall>i<length orig. rank1 orig i = rank1 orig j
            \<longrightarrow> rank2 orig sub film i \<le> rank2 orig sub film j)
     \<and> (\<forall>i<length orig. rank1 orig i = rank1 orig j
            \<and> rank2 orig sub film i = rank2 orig sub film j
            \<longrightarrow> center_norm (centers ! j) \<le> center_norm (centers ! i))"
proof -
  define r1 where "r1 = map np_round4 orig"
  define u0 where "u0 = np_unique r1 ! 0"
  define idx where "idx = where_equal r1 u0"
  define cs where "cs = map (\<lambda>i. centers ! i) idx"
  define r2 where "r2 = map (\<lambda>k. np_round4 (map (\<lambda>i. orig ! i) idx ! k
      + map (\<lambda>i. sub ! i) idx ! k + map (\<lambda>i. film ! i) idx ! k))
      [0 ..< length (map (\<lambda>i. orig ! i) idx)]"
  define pick where "pick = map (closest_to_origin cs) (map (where_equal r2) (np_unique r2))"
  define m where "m = pick ! np_argmax (map (\<lambda>k. r2 ! k) pick)"
  have r1ne: "r1 \<noteq> []" using assms(4) by (simp add: r1_def)
  from np_unique_head_least[OF r1ne]
  have une: "np_unique r1 \<noteq> []" and u0in: "u0 \<in> set r1"
    and u0le: "\<forall>x\<in>set r1. u0 \<le> x" unfolding u0_def by blast+
  from u0in obtain i0 where "i0 < length r1" "r1 ! i0 = u0"
    by (auto simp: in_set_conv_nth)
  then have "i0 \<in> set idx" by (simp add: where_equal_iff idx_def)
  then have idxne: "idx \<noteq> []" by auto
  have r2len: "length r2 = length idx" by (simp add: r2_def)
  have r2ne: "r2 \<noteq> []" using idxne r2len by auto
  have res: "select_min_center orig sub film centers = Inr (cs ! m)"
    unfolding select_min_center_def Let_def m_def pick_def r2_def cs_def idx_def u0_def
    using assms(1-3) une[unfolded r1_def] unfolding r1_def
    by (simp only: simp_thms if_False)
  from second_stage[OF r2ne, of cs, folded pick_def, folded m_def]
  have m: "m < length idx"
    and top: "\<forall>k<length idx. r2 ! k \<le> r2 ! m"
    and near: "\<forall>k<length idx. r2 ! k = r2 ! m \<longrightarrow> center_norm (cs ! m) \<le> center_norm (cs ! k)"
    unfolding r2len by blast+
  define j where "j = idx ! m"
  have jin: "j \<in> set idx" using m by (simp add: j_def)
  then have j: "j < length orig" and j1: "rank1 orig j = u0"
    by (auto simp: where_equal_iff rank1_def idx_def r1_def)
  have r2k: "r2 ! k = rank2 orig sub film (idx ! k)" if "k < length idx" for k
    using that by (simp add: rank2_def r2_def)
  have csk: "cs ! k = centers ! (idx ! k)" if "k < length idx" for k
    using that by (simp add: cs_def)
  have least: "\<forall>i<length orig. rank1 orig j \<le> rank1 orig i"
    unfolding j1 using u0le by (simp add: rank1_def r1_def)
  have preimage: "\<exists>k<length idx. idx ! k = i" if "i < length orig" "rank1 orig i = rank1 orig j" for i
  proof -
    have "i \<in> set idx" using that j1 by (simp add: where_equal_iff rank1_def idx_def r1_def)
    then show ?thesis by (simp add: in_set_conv_nth)
  qed
  have second: "rank2 orig sub film i \<le> rank2 orig sub film j"
    if "i < length orig" "rank1 orig i = rank1 orig j" for i
  proof -
    from preimage[OF that] obtain k where k: "k < length idx" "idx ! k = i" by blast
    have "r2 ! k \<le> r2 ! m" using top k by blast
    then show ?thesis unfolding r2k[OF k(1)] r2k[OF m] k(2) j_def .
  qed
  have third: "center_norm (centers ! j) \<le> center_norm (centers ! i)"
    if "i < length orig" "rank1 orig i = rank1 orig j"
      "rank2 orig sub film i = rank2 orig sub film j" for i
  proof -
    from preimage[OF that(1,2)] obtain k where k: "k < length idx" "idx ! k = i" by blast
    have "r2 ! k = r2 ! m" unfolding r2k[OF k(1)] r2k[OF m] k(2) using that(3) by (simp add: j_def)
    then have "center_norm (cs ! m) \<le> center_norm (cs ! k)" using near k by blast
    then show ?thesis unfolding csk[OF k(1)] csk[OF m] k(2) j_def .
  qed
  have "select_min_center orig sub film centers = Inr (centers ! j)"
    unfolding res csk[OF m] j_def ..
  with j least second third show ?thesis by blast
qed

lemmas rank_eval = select_min_center_def np_round4_def rint_def np_unique_def where_equal_def
  closest_to_origin_def np_argmin_def np_argmax_def center_norm_def rank1_def rank2_def Let_def

text \<open>
  C5 as stated fails at the second criterion. Two centres with the same primary value 1 and
  sums 1 and 2: the code returns the second one, the one with the higher sum
  (\<open>np.argmax\<close> in line 1624), not the lowest-scoring one.
\<close>

theorem select_min_center_counterexample: "select_min_center [1, 1] [0, 1] [0, 0] [(1, 0), (2, 0)] = Inr (2, 0)
   \<and> rank1 [1, 1] 0 = rank1 [1, 1] 1
   \<and> rank2 [1, 1] [0, 1] [0, 0] 0 < rank2 [1, 1] [0, 1] [0, 0] 1"
  by (simp add: rank_eval)

lemma select_min_center_example: "select_min_center [1, 1, 2] [0, 0, 0] [0, 0, 0] [(3, 0), (1, 0), (0, 0)] = Inr (1, 0)"
  by (simp add: rank_eval)

theorem select_min_center_rank_witness:
  "select_min_center [1, 1, 2] [0, 0, 0] [0, 0, 0] [(3, 0), (1, 0), (0, 0)] = Inr (1, 0)
   \<and> rank1 [1, 1, 2] 1 \<le> rank1 [1, 1, 2] 2
   \<and> center_norm ([(3, 0), (1, 0), (0, 0)] ! 1) \<le> center_norm ([(3, 0), (1, 0), (0, 0)] ! 0)"
proof -
  have a: "length [0, 0, 0 :: real] = length [1, 1, 2 :: real]"
    and c: "length [(3, 0), (1, 0), (0, 0 :: real)] = length [1, 1, 2 :: real]"
    and d: "[1, 1, 2 :: real] \<noteq> []" by simp_all
  from select_min_center_rank[OF a a c d] obtain j where
    j: "select_min_center [1, 1, 2] [0, 0, 0] [0, 0, 0] [(3, 0), (1, 0), (0, 0)]
          = Inr ([(3, 0), (1, 0), (0, 0)] ! j)"
    by blast
  have e: "select_min_center [1, 1, 2] [0, 0, 0] [0, 0, 0] [(3, 0), (1, 0), (0, 0)] = Inr (1, 0)"
    by (simp add: rank_eval)
  have "rank1 [1, 1, 2] 1 \<le> rank1 [1, 1, 2] 2"
    and "center_norm ([(3, 0), (1, 0), (0, 0)] ! 1) \<le> center_norm ([(3, 0), (1, 0), (0, 0)] ! 0)"
    by (simp_all add: rank_eval)
  with e j show ?thesis by simp
qed

section \<open>Properties of the Gaussian parameters\<close>













end
